theory Spec2Isabelle
  imports Main
begin

unbundle bit_operations_syntax

section \<open>Python values used by Dup\_Remover.py\<close>

text \<open>
  Strings are lists of characters whose code points are below 256. The exceptions the
  program can raise while it classifies a line are values of \<open>py_error\<close>; a computation
  that may raise returns \<open>py_error + 'a\<close>, with \<open>Inl\<close> for the exception.
\<close>

datatype py_error = IndexError | ValueError | TypeError

definition TAB :: char where
  "TAB = CHR 0x09"

definition NL :: char where
  "NL = CHR 0x0A"

text \<open>\<open>s.split(d)\<close> for a one-character separator: never empty, one more piece than separators.\<close>

fun split_on :: "char \<Rightarrow> string \<Rightarrow> string list" where
  "split_on d [] = [[]]"
| "split_on d (c # cs) =
     (let r = split_on d cs in if c = d then [] # r else (c # hd r) # tl r)"

text \<open>\<open>xs[i]\<close> for a constant, non-negative index \<open>i\<close>: IndexError out of range.\<close>

definition py_index :: "'a list \<Rightarrow> nat \<Rightarrow> py_error + 'a" where
  "py_index xs i = (if i < length xs then Inr (xs ! i) else Inl IndexError)"

text \<open>\<open>sep.join(parts)\<close>.\<close>

fun py_join :: "string \<Rightarrow> string list \<Rightarrow> string" where
  "py_join sep [] = []"
| "py_join sep [x] = x"
| "py_join sep (x # y # ys) = x @ sep @ py_join sep (y # ys)"

text \<open>
  \<open>int(s)\<close> on a string, base 10: white space is stripped at both ends, one sign is
  allowed, then decimal digits with single underscores between digits; anything else is
  ValueError. The white space that \<open>int\<close> strips is, among the code points below 256,
  tab, line feed, vertical tab, form feed, carriage return, space, U+0085 and U+00A0; the
  separators U+001C to U+001F are not stripped. A string with more than 4300 digits is
  rejected with ValueError as well (the default of \<open>sys.int_max_str_digits\<close> since
  Python 3.11); underscores do not count, leading zeros do.
\<close>

definition is_space :: "char \<Rightarrow> bool" where
  "is_space c = ((of_char c :: nat) \<in> {9, 10, 11, 12, 13, 32, 133, 160})"

definition is_digit :: "char \<Rightarrow> bool" where
  "is_digit c = (48 \<le> (of_char c :: nat) \<and> (of_char c :: nat) \<le> 57)"

definition digit_val :: "char \<Rightarrow> int" where
  "digit_val c = of_char c - 48"

definition strip_space :: "string \<Rightarrow> string" where
  "strip_space s = rev (dropWhile is_space (rev (dropWhile is_space s)))"

fun parse_digits :: "int \<Rightarrow> string \<Rightarrow> int option" where
  "parse_digits acc [] = Some acc"
| "parse_digits acc (c # cs) =
     (if is_digit c then parse_digits (10 * acc + digit_val c) cs
      else if c = CHR ''_'' then
        (case cs of
           [] \<Rightarrow> None
         | d # ds \<Rightarrow> if is_digit d then parse_digits (10 * acc + digit_val d) ds else None)
      else None)"

definition parse_unsigned :: "string \<Rightarrow> int option" where
  "parse_unsigned s =
     (case s of
        [] \<Rightarrow> None
      | c # cs \<Rightarrow> if is_digit c then parse_digits (digit_val c) cs else None)"

definition int_max_str_digits :: nat where
  "int_max_str_digits = 4300"

definition py_int :: "string \<Rightarrow> py_error + int" where
  "py_int s =
     (let t = strip_space s;
          r = (case t of
                 [] \<Rightarrow> None
               | c # cs \<Rightarrow>
                   if c = CHR ''-'' then map_option uminus (parse_unsigned cs)
                   else if c = CHR ''+'' then parse_unsigned cs
                   else parse_unsigned t)
      in if int_max_str_digits < length (filter is_digit t) then Inl ValueError
         else case r of None \<Rightarrow> Inl ValueError | Some n \<Rightarrow> Inr n)"

section \<open>Class sam\_info\<close>

text \<open>
  \<open>soft_check\<close> (lines 88-96). \<open>align[1]\<close> and \<open>align[2]\<close> are plain indexing, so a
  descriptor that is too short raises IndexError; \<open>int\<close> of the characters in front of the
  \<open>S\<close> raises ValueError when they are no number. \<open>align[:2]\<close> is slicing and never raises.
\<close>

definition soft_check :: "string \<Rightarrow> py_error + int" where
  "soft_check align =
     (case py_index align 1 of
        Inl e \<Rightarrow> Inl e
      | Inr a1 \<Rightarrow>
          if a1 = CHR ''S'' \<or> a1 = CHR ''s'' then
            (case py_index align 0 of Inl e \<Rightarrow> Inl e | Inr a0 \<Rightarrow> py_int [a0])
          else
            (case py_index align 2 of
               Inl e \<Rightarrow> Inl e
             | Inr a2 \<Rightarrow>
                 if a2 = CHR ''S'' \<or> a2 = CHR ''s'' then py_int (take 2 align)
                 else Inr 0))"

text \<open>
  \<open>convert_phred\<close> (lines 98-106). The \<open>return\<close> stands inside the body of the \<open>for\<close>
  loop, so the loop returns in its first iteration; when the quality string is empty the
  body never runs and the function falls off its end, which in Python returns \<open>None\<close>.
\<close>

fun phred_loop :: "int \<Rightarrow> string \<Rightarrow> int option" where
  "phred_loop sum_qual [] = None"
| "phred_loop sum_qual (letter # rest) =
     (let n = of_char letter - 33;
          sum_qual = sum_qual + n
      in Some sum_qual)"

definition convert_phred :: "string \<Rightarrow> py_error + int option" where
  "convert_phred line =
     (case py_index (split_on TAB line) 10 of
        Inl e \<Rightarrow> Inl e
      | Inr qual \<Rightarrow> Inr (phred_loop 0 qual))"

text \<open>\<open>start_pos\<close> (lines 108-116).\<close>

definition start_pos :: "string \<Rightarrow> py_error + int" where
  "start_pos line =
     (case py_index (split_on TAB line) 3 of
        Inl e \<Rightarrow> Inl e
      | Inr f3 \<Rightarrow>
          (case py_int f3 of
             Inl e \<Rightarrow> Inl e
           | Inr p \<Rightarrow>
               (case py_index (split_on TAB line) 5 of
                  Inl e \<Rightarrow> Inl e
                | Inr align \<Rightarrow>
                    (case soft_check align of
                       Inl e \<Rightarrow> Inl e
                     | Inr soft \<Rightarrow> Inr (if soft > 0 then p - soft else p)))))"

text \<open>
  \<open>bit_check\<close> (lines 138-152) returns the pair \<open>(strand, umap)\<close>: \<open>umap\<close> is the empty
  string for a mapped, primary alignment and \<open>None\<close> otherwise. Python's \<open>&\<close> on integers
  is two's complement on unbounded integers, as \<open>AND\<close> on \<open>int\<close> is. The call of the
  logger writes to dup\_remove.log only and is left out.
\<close>

definition bit_check :: "string \<Rightarrow> py_error + (string \<times> string option)" where
  "bit_check line =
     (case py_index (split_on TAB line) 1 of
        Inl e \<Rightarrow> Inl e
      | Inr f1 \<Rightarrow>
          (case py_int f1 of
             Inl e \<Rightarrow> Inl e
           | Inr flag \<Rightarrow>
               (let umap = (if flag AND 4 \<noteq> 4 \<and> flag AND 256 \<noteq> 256 then Some [] else None);
                    strand = (if flag AND 16 = 16 then ''-'' else ''+'')
                in Inr (strand, umap))))"

text \<open>
  \<open>barcode_get\<close> (lines 118-136) does not read its own line. It runs the shell pipeline
  \<^verbatim>\<open>cat sam | cut -f 1 | grep -v '^@' | sed -n 'COUNTp' | grep -o '[ACGTN^-]\{ID,\}'\<close>
  on the file named by the global \<open>sam\<close>, with the global counter \<open>COUNT\<close>, through
  \<open>subprocess.check_output\<close>, which returns what the pipeline prints and raises when the
  last command of the pipeline ends with a status other than 0. The exception is caught and
  leaves \<open>BC = ""\<close>; the result is \<open>BC.strip("\n")\<close>.

  The file is a parameter here: its lines as the shell tools see them, without terminators,
  as text in the encoding of the locale; its name is taken to be a single word for the
  shell. The tools are not part of the repository; they are modelled as GNU cut, sed and
  grep (3.5 or later) behave:
  \<^item> \<open>cut -f 1\<close> keeps the text before the first tab of every line;
  \<^item> \<open>grep -v '^@'\<close> drops the lines that start with \<open>@\<close>; when its input holds a NUL
    byte it takes the input for binary and prints no line of the buffer that holds the NUL
    (the names are taken to reach it in one buffer);
  \<^item> \<open>sed -n 'Np'\<close> prints line \<open>N\<close>, counted from 1, if there is one;
  \<^item> \<open>grep -o\<close> rejects the pattern (status 2) when the bound is negative or above 32767;
    otherwise it prints every non-empty leftmost-longest match on a line of its own (for
    this pattern: every maximal run of characters from the class that is long enough), with
    status 0 when the line matches and status 1 when it does not or when there is no line.
    With the bound 0 every line matches, also one that prints nothing.
\<close>

definition in_class :: "char \<Rightarrow> bool" where
  "in_class c = (c \<in> set ''ACGTN^-'')"

text \<open>The non-empty matches of the pattern with bound \<open>n\<close> in one line of text.\<close>

fun grep_o :: "nat \<Rightarrow> string \<Rightarrow> string \<Rightarrow> string list" where
  "grep_o n cur [] = (if cur \<noteq> [] \<and> n \<le> length cur then [cur] else [])"
| "grep_o n cur (c # cs) =
     (if in_class c then grep_o n (cur @ [c]) cs
      else if cur \<noteq> [] \<and> n \<le> length cur then cur # grep_o n [] cs
      else grep_o n [] cs)"

definition starts_with_at :: "string \<Rightarrow> bool" where
  "starts_with_at s = (case s of [] \<Rightarrow> False | c # _ \<Rightarrow> c = CHR ''@'')"

definition cut_f1 :: "string \<Rightarrow> string" where
  "cut_f1 l = hd (split_on TAB l)"

definition binary_input :: "string list \<Rightarrow> bool" where
  "binary_input sam = (CHR 0x00 \<in> set (concat (map cut_f1 sam)))"

definition read_names :: "string list \<Rightarrow> string list" where
  "read_names sam = filter (\<lambda>n. \<not> starts_with_at n) (map cut_f1 sam)"

text \<open>
  The call of \<open>subprocess.check_output\<close> on the pipeline: \<open>None\<close> when it raises, the
  printed text otherwise.
\<close>

definition check_output :: "string list \<Rightarrow> int \<Rightarrow> nat \<Rightarrow> string option" where
  "check_output sam ID COUNT =
     (if ID < 0 \<or> 32767 < ID then None
      else if binary_input sam then None
      else if COUNT < 1 \<or> length (read_names sam) < COUNT then None
      else
        (case grep_o (nat ID) [] (read_names sam ! (COUNT - 1)) of
           [] \<Rightarrow> if ID = 0 then Some [] else None
         | m # ms \<Rightarrow> Some (concat (map (\<lambda>x. x @ [NL]) (m # ms)))))"

text \<open>\<open>s.strip("\n")\<close>.\<close>

definition strip_nl :: "string \<Rightarrow> string" where
  "strip_nl s = rev (dropWhile (\<lambda>c. c = NL) (rev (dropWhile (\<lambda>c. c = NL) s)))"

definition barcode_get :: "string list \<Rightarrow> int \<Rightarrow> nat \<Rightarrow> string" where
  "barcode_get sam ID COUNT =
     strip_nl (case check_output sam ID COUNT of None \<Rightarrow> [] | Some out \<Rightarrow> out)"

text \<open>
  The object built by \<open>sam_info.__init__\<close> (lines 76-86): the four methods run in the
  order of the source, and the first exception ends the construction. Only \<open>barcode_get\<close>
  touches a global: it adds one to \<open>COUNT\<close>, so the constructor returns the new counter
  beside the object.
\<close>

record sam_info =
  line :: string
  start_pos_of :: int
  qual_score :: "int option"
  strand :: "string \<times> string option"
  BC :: string

definition sam_info_init :: "string list \<Rightarrow> int \<Rightarrow> nat \<Rightarrow> string \<Rightarrow> py_error + (sam_info \<times> nat)" where
  "sam_info_init sam ID COUNT l =
     (case start_pos l of
        Inl e \<Rightarrow> Inl e
      | Inr sp \<Rightarrow>
          (case convert_phred l of
             Inl e \<Rightarrow> Inl e
           | Inr q \<Rightarrow>
               (case bit_check l of
                  Inl e \<Rightarrow> Inl e
                | Inr st \<Rightarrow>
                    Inr (\<lparr>line = l, start_pos_of = sp, qual_score = q, strand = st,
                          BC = barcode_get sam ID COUNT\<rparr>, COUNT + 1))))"

section \<open>rmdup.inter\_sam and the globals of the main program\<close>

text \<open>
  The globals \<open>COUNT\<close>, \<open>NR\<close> and \<open>place\<close> and the local \<open>bestScore\<close> of \<open>inter_sam\<close>.
  \<open>place\<close> is a Python dict: an association list in insertion order in which assigning to
  a key that is present replaces the value where it stands. \<open>bestScore\<close> can become \<open>None\<close>
  when \<open>convert_phred\<close> returned \<open>None\<close>.
\<close>

type_synonym dedup_key = "string \<times> int \<times> string"

record globals =
  COUNT :: nat
  NR :: nat
  bestScore :: "int option"
  place :: "(dedup_key \<times> string) list"

fun dict_set :: "'k \<Rightarrow> 'v \<Rightarrow> ('k \<times> 'v) list \<Rightarrow> ('k \<times> 'v) list" where
  "dict_set k v [] = [(k, v)]"
| "dict_set k v ((k', v') # ps) = (if k' = k then (k, v) # ps else (k', v') # dict_set k v ps)"

definition dict_keys :: "('k \<times> 'v) list \<Rightarrow> 'k list" where
  "dict_keys d = map fst d"

definition dict_values :: "('k \<times> 'v) list \<Rightarrow> 'v list" where
  "dict_values d = map snd d"

text \<open>\<open>a < b\<close> in Python 3: TypeError when either side is \<open>None\<close>.\<close>

definition py_less :: "int option \<Rightarrow> int option \<Rightarrow> py_error + bool" where
  "py_less a b = (case (a, b) of (Some x, Some y) \<Rightarrow> Inr (x < y) | _ \<Rightarrow> Inl TypeError)"

text \<open>
  Lines 186-189: the \<open>break\<close> belongs to the body of the \<open>for\<close>, not to the \<open>if\<close>, so the
  loop looks at the first key of the dict only.
\<close>

definition replace_loop :: "dedup_key \<Rightarrow> string \<Rightarrow> (dedup_key \<times> string) list \<Rightarrow> (dedup_key \<times> string) list" where
  "replace_loop val l d =
     (case dict_keys d of
        [] \<Rightarrow> d
      | key # _ \<Rightarrow> if key = val then dict_set val l d else d)"

text \<open>
  The body of the loop over the lines (lines 177-195). The test \<open>line.BC is ""\<close> compares
  with the empty string; \<open>and\<close> evaluates its right side only when the left side holds.
\<close>

definition inter_sam_body :: "string list \<Rightarrow> int \<Rightarrow> globals \<Rightarrow> string \<Rightarrow> py_error + globals" where
  "inter_sam_body sam ID g l =
     (if starts_with_at l then Inr g
      else
        (case sam_info_init sam ID (COUNT g) l of
           Inl e \<Rightarrow> Inl e
         | Inr (info, count') \<Rightarrow>
             (let g1 = g\<lparr>COUNT := count', NR := NR g + 1\<rparr>;
                  val = (BC info, start_pos_of info, fst (strand info))
              in if snd (strand info) = None \<or> BC info = [] then Inr g1
                 else
                   (case (if val \<in> set (dict_keys (place g1))
                          then py_less (bestScore g1) (qual_score info)
                          else Inr False) of
                      Inl e \<Rightarrow> Inl e
                    | Inr True \<Rightarrow> Inr (g1\<lparr>place := replace_loop val (line info) (place g1)\<rparr>)
                    | Inr False \<Rightarrow>
                        if val \<notin> set (dict_keys (place g1))
                        then Inr (g1\<lparr>place := dict_set val (line info) (place g1),
                                      bestScore := qual_score info\<rparr>)
                        else Inr g1))))"

fun inter_sam_loop :: "string list \<Rightarrow> int \<Rightarrow> globals \<Rightarrow> string list \<Rightarrow> py_error + globals" where
  "inter_sam_loop sam ID g [] = Inr g"
| "inter_sam_loop sam ID g (l # ls) =
     (case inter_sam_body sam ID g l of
        Inl e \<Rightarrow> Inl e
      | Inr g' \<Rightarrow> inter_sam_loop sam ID g' ls)"

text \<open>
  Lines 255-258 and 170: the globals as the main program sets them, and \<open>bestScore = 0\<close>
  at the start of \<open>inter_sam\<close>.
\<close>

definition init_globals :: globals where
  "init_globals = \<lparr>COUNT = 1, NR = 0, bestScore = Some 0, place = []\<rparr>"

definition inter_sam :: "string list \<Rightarrow> int \<Rightarrow> string list \<Rightarrow> py_error + globals" where
  "inter_sam sam ID sorted_sam = inter_sam_loop sam ID init_globals sorted_sam"

text \<open>
  Lines 267-269: the lines written to the output file, in the order of \<open>place.values()\<close>.
  They are written only when \<open>inter_sam\<close> returned; an exception ends the program before.
\<close>

definition deduped :: "string list \<Rightarrow> int \<Rightarrow> string list \<Rightarrow> py_error + string list" where
  "deduped sam ID sorted_sam =
     (case inter_sam sam ID sorted_sam of
        Inl e \<Rightarrow> Inl e
      | Inr g \<Rightarrow> Inr (dict_values (place g)))"

text \<open>
  For writing inputs down: the text of a record from its fields, as Python reads it from
  the file (tabs between the fields, a newline at the end), and the same record as the
  shell tools see it (no newline).
\<close>

definition sam_record :: "string list \<Rightarrow> string" where
  "sam_record fs = py_join [TAB] fs @ [NL]"

definition sam_text :: "string list \<Rightarrow> string" where
  "sam_text fs = py_join [TAB] fs"

section \<open>Concrete records\<close>

text \<open>
  Records as lists of their eleven fields: name, flag, reference, position, mapping
  quality, descriptor, mate reference, mate position, template length, bases, qualities.
  All are mapped, primary and on the forward strand (flag 0).
\<close>

definition rec_III :: "string list" where
  "rec_III = [''r1:AAAAAA'', ''0'', ''chr1'', ''100'', ''60'', ''20M'', ''*'', ''0'', ''0'', ''ACG'', ''III'']"

definition rec_noqual :: "string list" where
  "rec_noqual = [''r1:AAAAAA'', ''0'', ''chr1'', ''100'', ''60'', ''20M'', ''*'', ''0'', ''0'', ''ACG'', [], ''NM:i:0'']"

definition rec_a10 :: "string list" where
  "rec_a10 = [''r1:AAAAAA'', ''0'', ''chr1'', ''100'', ''60'', ''20M'', ''*'', ''0'', ''0'', ''ACG'', ''+++'']"

definition rec_c50 :: "string list" where
  "rec_c50 = [''r2:CCCCCC'', ''0'', ''chr1'', ''200'', ''60'', ''20M'', ''*'', ''0'', ''0'', ''ACG'', ''SSS'']"

definition rec_a30 :: "string list" where
  "rec_a30 = [''r3:AAAAAA'', ''0'', ''chr1'', ''100'', ''60'', ''20M'', ''*'', ''0'', ''0'', ''ACG'', ''???'']"

definition rec_a40 :: "string list" where
  "rec_a40 = [''r4:AAAAAA'', ''0'', ''chr1'', ''100'', ''60'', ''20M'', ''*'', ''0'', ''0'', ''ACG'', ''III'']"

definition rec_c10 :: "string list" where
  "rec_c10 = [''r5:CCCCCC'', ''0'', ''chr1'', ''200'', ''60'', ''20M'', ''*'', ''0'', ''0'', ''ACG'', ''+++'']"

definition rec_a40' :: "string list" where
  "rec_a40' = [''r6:AAAAAA'', ''0'', ''chr1'', ''100'', ''60'', ''20M'', ''*'', ''0'', ''0'', ''ACG'', ''III'']"

definition rec_L :: "string list" where
  "rec_L = [''r7:AAAAAA'', ''0'', ''chr1'', ''200'', ''60'', ''20M'', ''*'', ''0'', ''0'', ''ACG'', ''III'']"

definition rec_M :: "string list" where
  "rec_M = [''r8:CCCCCC'', ''0'', ''chr1'', ''100'', ''60'', ''20M'', ''*'', ''0'', ''0'', ''ACG'', ''III'']"

definition rec_5M :: "string list" where
  "rec_5M = [''r9:AAAAAA'', ''0'', ''chr1'', ''100'', ''60'', ''5M'', ''*'', ''0'', ''0'', ''ACGTA'', ''IIIII'']"

text \<open>
  Further records: an unmapped one (flag 4), a line with six fields only, a leading soft
  clip of 100 bases at position 50, a leading soft clip of 5 bases at position 3, and a
  name without any run of six characters from the class.
\<close>

definition rec_u4 :: "string list" where
  "rec_u4 = [''r10:GGGGGG'', ''4'', ''chr1'', ''300'', ''0'', ''20M'', ''*'', ''0'', ''0'', ''ACG'', ''III'']"

definition rec_short :: "string list" where
  "rec_short = [''r11:AAAAAA'', ''0'', ''chr1'', ''100'', ''60'', ''20M'']"

definition rec_clip100 :: "string list" where
  "rec_clip100 = [''r12:AAAAAA'', ''0'', ''chr1'', ''50'', ''60'', ''100S20M'', ''*'', ''0'', ''0'', ''ACG'', ''III'']"

definition rec_clip5 :: "string list" where
  "rec_clip5 = [''r13:AAAAAA'', ''0'', ''chr1'', ''3'', ''60'', ''5S20M'', ''*'', ''0'', ''0'', ''ACG'', ''III'']"


text \<open>
  The property of the table that the exclusion of unmapped and secondary records rests on:
  every stored line is one on which \<open>bit_check\<close> returns a non-\<open>None\<close> second component.
\<close>

definition stored_mapped :: "globals \<Rightarrow> bool" where
  "stored_mapped g = (\<forall>v \<in> set (dict_values (place g)). \<exists>s u. bit_check v = Inr (s, Some u))"

section \<open>Facts about the dictionary and the parser of integers\<close>

lemma dict_set_values: "set (dict_values (dict_set k v d)) \<subseteq> insert v (set (dict_values d))"
proof (induction d)
  case Nil
  show ?case by (simp add: dict_values_def)
next
  case (Cons p d)
  obtain k' v' where p: "p = (k', v')" by (cases p)
  from Cons show ?case
    unfolding p dict_values_def by (cases "k' = k") auto
qed

lemma replace_loop_values: "set (dict_values (replace_loop k v d)) \<subseteq> insert v (set (dict_values d))"
  using dict_set_values [of k v d]
  by (auto simp: replace_loop_def split: list.splits)

lemma dict_set_keys: "set (dict_keys (dict_set k v d)) = insert k (set (dict_keys d))"
proof (induction d)
  case Nil
  show ?case by (simp add: dict_keys_def)
next
  case (Cons p d)
  obtain k' v' where p: "p = (k', v')" by (cases p)
  from Cons show ?case
    unfolding p dict_keys_def by (cases "k' = k") auto
qed

lemma dict_set_keys_distinct:
  "distinct (dict_keys d) \<Longrightarrow> distinct (dict_keys (dict_set k v d))"
proof (induction d)
  case Nil
  show ?case by (simp add: dict_keys_def)
next
  case (Cons p d)
  obtain k' v' where p: "p = (k', v')" by (cases p)
  show ?case
  proof (cases "k' = k")
    case True
    with Cons.prems show ?thesis by (simp add: p dict_keys_def)
  next
    case False
    from Cons.prems have d: "distinct (dict_keys d)" and n: "k' \<notin> set (dict_keys d)"
      by (simp_all add: p dict_keys_def)
    from n False have "k' \<notin> set (dict_keys (dict_set k v d))"
      by (simp add: dict_set_keys)
    moreover from Cons.IH [OF d] have "distinct (dict_keys (dict_set k v d))" .
    ultimately show ?thesis using False by (simp add: p dict_keys_def)
  qed
qed

lemma replace_loop_keys_distinct:
  "distinct (dict_keys d) \<Longrightarrow> distinct (dict_keys (replace_loop k v d))"
  using dict_set_keys_distinct [of d k v]
  by (simp add: replace_loop_def split: list.splits)

lemma digit_not_clip: "is_digit d \<Longrightarrow> d \<noteq> CHR ''S'' \<and> d \<noteq> CHR ''s''"
  by (auto simp: is_digit_def)

lemma soft_check_leading_clip:
  assumes "c = CHR ''S'' \<or> c = CHR ''s''" and "length ds = 1 \<or> length ds = 2"
    and "\<forall>d\<in>set ds. is_digit d"
  shows "soft_check (ds @ c # rest) = py_int ds"
proof -
  from assms(2) consider d where "ds = [d]" | d1 d2 where "ds = [d1, d2]"
    by (cases ds; cases "tl ds"; cases "tl (tl ds)") auto
  then show ?thesis
  proof cases
    case 1
    with assms(1) show ?thesis by (auto simp: soft_check_def py_index_def)
  next
    case 2
    with assms(3) have "d2 \<noteq> CHR ''S''" and "d2 \<noteq> CHR ''s''"
      by (auto dest: digit_not_clip)
    with 2 assms(1) show ?thesis by (auto simp: soft_check_def py_index_def)
  qed
qed

lemma digit_facts:
  "is_digit d \<Longrightarrow> \<not> is_space d \<and> d \<noteq> CHR ''-'' \<and> d \<noteq> CHR ''+'' \<and> 0 \<le> digit_val d"
proof -
  assume d: "is_digit d"
  have "(of_char d :: int) = int (of_char d)" by (simp add: of_nat_of_char)
  with d have "0 \<le> digit_val d" by (simp add: is_digit_def digit_val_def)
  with d show ?thesis by (auto simp: is_digit_def is_space_def)
qed

lemma py_int_one_digit: "is_digit d \<Longrightarrow> py_int [d] = Inr (digit_val d)"
  by (simp add: py_int_def strip_space_def parse_unsigned_def int_max_str_digits_def digit_facts)

lemma py_int_two_digits:
  "is_digit d1 \<Longrightarrow> is_digit d2 \<Longrightarrow> py_int [d1, d2] = Inr (10 * digit_val d1 + digit_val d2)"
  by (simp add: py_int_def strip_space_def parse_unsigned_def int_max_str_digits_def digit_facts)

lemma py_int_separator_rejected:
  "py_int [CHR 0x1C, CHR ''0''] = Inl ValueError \<and> py_int [CHR 0x1F, CHR ''3''] = Inl ValueError"
  by code_simp

lemma py_index_error: "py_index xs i = Inl e \<Longrightarrow> e = IndexError"
  by (simp add: py_index_def split: if_splits)

lemma py_int_error: "py_int s = Inl e \<Longrightarrow> e = ValueError"
  by (simp add: py_int_def Let_def split: if_splits option.splits)

lemma py_int_digits_nonneg:
  assumes "length ds = 1 \<or> length ds = 2" and "\<forall>d\<in>set ds. is_digit d" and "py_int ds = Inr s"
  shows "0 \<le> s"
proof -
  from assms(1) consider d where "ds = [d]" | d1 d2 where "ds = [d1, d2]"
    by (cases ds; cases "tl ds"; cases "tl (tl ds)") auto
  then show ?thesis
  proof cases
    case 1
    with assms(2,3) show ?thesis by (auto simp: py_int_one_digit digit_facts)
  next
    case 2
    with assms(2,3) have "s = 10 * digit_val d1 + digit_val d2" and "0 \<le> digit_val d1"
      and "0 \<le> digit_val d2"
      by (auto simp: py_int_two_digits digit_facts)
    then show ?thesis by simp
  qed
qed

lemma dict_set_absent: "k \<notin> set (dict_keys d) \<Longrightarrow> dict_set k v d = d @ [(k, v)]"
  by (induction d) (auto simp: dict_keys_def)

section \<open>Facts about the pattern search\<close>





section \<open>Facts about classification and the loop body\<close>

lemma sam_info_init_fields:
  "sam_info_init sam ID c l = Inr (info, c') \<Longrightarrow>
     line info = l \<and> start_pos l = Inr (start_pos_of info) \<and> convert_phred l = Inr (qual_score info)
     \<and> bit_check l = Inr (strand info) \<and> BC info = barcode_get sam ID c \<and> c' = c + 1"
  by (auto simp: sam_info_init_def split: sum.splits)

lemma classification_line_fields:
  "map_sum id (\<lambda>(i, c). (line i, start_pos_of i, qual_score i, strand i)) (sam_info_init sam ID k l)
   = map_sum id (\<lambda>(i, c). (line i, start_pos_of i, qual_score i, strand i)) (sam_info_init sam' ID' k' l)"
  by (simp add: sam_info_init_def split: sum.splits)

lemma body_header: "starts_with_at l \<Longrightarrow> inter_sam_body sam ID g l = Inr g"
  by (simp add: inter_sam_body_def)

lemma body_record:
  assumes "\<not> starts_with_at l" and "inter_sam_body sam ID g l = Inr g'"
  obtains info where "sam_info_init sam ID (COUNT g) l = Inr (info, COUNT g + 1)"
    and "snd (strand info) = None \<or> BC info = [] \<longrightarrow> place g' = place g"
    and "place g' = place g \<or> place g' = dict_set (BC info, start_pos_of info, fst (strand info)) l (place g)
          \<or> place g' = replace_loop (BC info, start_pos_of info, fst (strand info)) l (place g)"
proof -
  from assms obtain info c' where i: "sam_info_init sam ID (COUNT g) l = Inr (info, c')"
    by (auto simp: inter_sam_body_def split: sum.splits)
  from sam_info_init_fields [OF i] have c': "c' = COUNT g + 1" and l: "line info = l" by simp_all
  have a: "snd (strand info) = None \<or> BC info = [] \<longrightarrow> place g' = place g"
    using assms i by (auto simp: inter_sam_body_def Let_def)
  have b: "place g' = place g \<or> place g' = dict_set (BC info, start_pos_of info, fst (strand info)) l (place g)
          \<or> place g' = replace_loop (BC info, start_pos_of info, fst (strand info)) l (place g)"
    using assms i l by (auto simp: inter_sam_body_def Let_def split: if_splits sum.splits bool.splits)
  from i c' a b that show thesis by blast
qed

lemma body_stored_mapped:
  assumes "inter_sam_body sam ID g l = Inr g'" and "stored_mapped g"
  shows "stored_mapped g'"
proof (cases "starts_with_at l")
  case True
  with assms show ?thesis by (simp add: body_header)
next
  case False
  from body_record [OF False assms(1)] obtain info where
    i: "sam_info_init sam ID (COUNT g) l = Inr (info, COUNT g + 1)"
    and a: "snd (strand info) = None \<or> BC info = [] \<longrightarrow> place g' = place g"
    and b: "place g' = place g \<or> place g' = dict_set (BC info, start_pos_of info, fst (strand info)) l (place g)
          \<or> place g' = replace_loop (BC info, start_pos_of info, fst (strand info)) l (place g)"
    by blast
  show ?thesis
  proof (cases "place g' = place g")
    case True
    with assms(2) show ?thesis by (simp add: stored_mapped_def)
  next
    case changed: False
    from a changed have "snd (strand info) \<noteq> None" by auto
    then obtain u where "snd (strand info) = Some u" by blast
    with sam_info_init_fields [OF i] have bl: "bit_check l = Inr (fst (strand info), Some u)"
      by (metis prod.collapse)
    from changed b have "set (dict_values (place g')) \<subseteq> insert l (set (dict_values (place g)))"
      using dict_set_values replace_loop_values by metis
    with bl assms(2) show ?thesis
      unfolding stored_mapped_def by blast
  qed
qed

lemma loop_stored_mapped:
  "inter_sam_loop sam ID g ls = Inr g' \<Longrightarrow> stored_mapped g \<Longrightarrow> stored_mapped g'"
proof (induction ls arbitrary: g)
  case Nil
  then show ?case by simp
next
  case (Cons l ls)
  then show ?case
    by (auto split: sum.splits dest: body_stored_mapped)
qed

lemma init_stored_mapped: "stored_mapped init_globals"
  by (simp add: stored_mapped_def init_globals_def dict_values_def)

lemma bit_check_excluded:
  assumes "py_index (split_on TAB l) 1 = Inr f" and "py_int f = Inr flag"
    and "flag AND 4 = 4 \<or> flag AND 256 = 256"
  shows "bit_check l = Inr (if flag AND 16 = 16 then ''-'' else ''+'', None)"
  using assms by (auto simp: bit_check_def Let_def)

lemma body_keys_distinct:
  assumes "inter_sam_body sam ID g l = Inr g'" and "distinct (dict_keys (place g))"
  shows "distinct (dict_keys (place g'))"
proof (cases "starts_with_at l")
  case True
  with assms show ?thesis by (simp add: body_header)
next
  case False
  from body_record [OF False assms(1)] obtain info :: sam_info where
    "place g' = place g \<or> place g' = dict_set (BC info, start_pos_of info, fst (strand info)) l (place g)
          \<or> place g' = replace_loop (BC info, start_pos_of info, fst (strand info)) l (place g)"
    by blast
  then consider "place g' = place g"
    | k where "place g' = dict_set k l (place g)"
    | k where "place g' = replace_loop k l (place g)"
    by blast
  then show ?thesis
  proof cases
    case 1
    with assms(2) show ?thesis by simp
  next
    case 2
    with assms(2) show ?thesis by (simp add: dict_set_keys_distinct)
  next
    case 3
    with assms(2) show ?thesis by (simp add: replace_loop_keys_distinct)
  qed
qed

lemma place_keys_distinct:
  "inter_sam_loop sam ID g ls = Inr g' \<Longrightarrow> distinct (dict_keys (place g)) \<Longrightarrow>
     distinct (dict_keys (place g'))"
proof (induction ls arbitrary: g)
  case Nil
  then show ?case by simp
next
  case (Cons l ls)
  then show ?case
    by (auto split: sum.splits dest: body_keys_distinct)
qed

lemma body_insert:
  assumes "\<not> starts_with_at l" and "start_pos l = Inr sp" and "convert_phred l = Inr q"
    and "bit_check l = Inr (sd, Some u)" and "barcode_get sam ID (COUNT g) \<noteq> []"
    and "(barcode_get sam ID (COUNT g), sp, sd) \<notin> set (dict_keys (place g))"
  shows "\<exists>g'. inter_sam_body sam ID g l = Inr g'
           \<and> place g' = place g @ [((barcode_get sam ID (COUNT g), sp, sd), l)]"
  using assms by (simp add: inter_sam_body_def sam_info_init_def Let_def dict_set_absent)

lemma start_pos_leading_clip:
  assumes "py_index (split_on TAB l) 3 = Inr f3" and "py_int f3 = Inr p"
    and "py_index (split_on TAB l) 5 = Inr (ds @ c # rest)"
    and "c = CHR ''S'' \<or> c = CHR ''s''"
    and "length ds = 1 \<or> length ds = 2" and "\<forall>d\<in>set ds. is_digit d"
    and "py_int ds = Inr s"
  shows "start_pos l = Inr (p - s)"
proof -
  from soft_check_leading_clip [OF assms(4-6)] assms(7)
  have "soft_check (ds @ c # rest) = Inr s" by simp
  moreover from py_int_digits_nonneg [OF assms(5-7)] have "0 \<le> s" .
  ultimately show ?thesis
    using assms(1-3) by (simp add: start_pos_def)
qed

lemma start_pos_no_clip:
  assumes "py_index (split_on TAB l) 3 = Inr f3" and "py_int f3 = Inr p"
    and "py_index (split_on TAB l) 5 = Inr align" and "3 \<le> length align"
    and "align ! 1 \<noteq> CHR ''S''" and "align ! 1 \<noteq> CHR ''s''"
    and "align ! 2 \<noteq> CHR ''S''" and "align ! 2 \<noteq> CHR ''s''"
  shows "start_pos l = Inr p"
  using assms by (simp add: start_pos_def soft_check_def py_index_def)

lemma malformed_init:
  assumes "length (split_on TAB l) < 11
     \<or> (\<exists>f. py_index (split_on TAB l) 1 = Inr f \<and> py_int f = Inl ValueError)
     \<or> (\<exists>f. py_index (split_on TAB l) 3 = Inr f \<and> py_int f = Inl ValueError)"
  shows "\<exists>e. sam_info_init sam ID c l = Inl e"
proof -
  from assms consider "convert_phred l = Inl IndexError" | "bit_check l = Inl ValueError"
    | "start_pos l = Inl ValueError"
    by (auto simp: convert_phred_def bit_check_def start_pos_def py_index_def)
  then show ?thesis
    by cases (auto simp: sam_info_init_def split: sum.splits)
qed

lemma loop_abort:
  assumes "\<And>g. \<exists>e. inter_sam_body sam ID g l = Inl e"
  shows "\<exists>e. inter_sam_loop sam ID g (pre @ l # post) = Inl e"
proof (induction pre arbitrary: g)
  case Nil
  from assms [of g] show ?case by auto
next
  case (Cons x xs)
  show ?case
  proof (cases "inter_sam_body sam ID g x")
    case (Inl e)
    then show ?thesis by simp
  next
    case (Inr g')
    with Cons.IH [of g'] show ?thesis by simp
  qed
qed

lemma soft_check_error: "soft_check a = Inl e \<Longrightarrow> e = IndexError \<or> e = ValueError"
  by (auto simp: soft_check_def split: sum.splits if_splits dest: py_index_error py_int_error)

lemma start_pos_error: "start_pos l = Inl e \<Longrightarrow> e = IndexError \<or> e = ValueError"
  by (auto simp: start_pos_def split: sum.splits dest: py_index_error py_int_error soft_check_error)

lemma convert_phred_error: "convert_phred l = Inl e \<Longrightarrow> e = IndexError"
  by (auto simp: convert_phred_def split: sum.splits dest: py_index_error)

lemma bit_check_error: "bit_check l = Inl e \<Longrightarrow> e = IndexError \<or> e = ValueError"
  by (auto simp: bit_check_def Let_def split: sum.splits dest: py_index_error py_int_error)

lemma sam_info_init_error:
  "sam_info_init sam ID c l = Inl e \<Longrightarrow> e = IndexError \<or> e = ValueError"
  by (auto simp: sam_info_init_def split: sum.splits
      dest: start_pos_error convert_phred_error bit_check_error)

lemma body_malformed:
  assumes "\<not> starts_with_at l"
    and "length (split_on TAB l) < 11
     \<or> (\<exists>f. py_index (split_on TAB l) 1 = Inr f \<and> py_int f = Inl ValueError)
     \<or> (\<exists>f. py_index (split_on TAB l) 3 = Inr f \<and> py_int f = Inl ValueError)"
  shows "inter_sam_body sam ID g l = Inl IndexError \<or> inter_sam_body sam ID g l = Inl ValueError"
proof -
  from malformed_init [OF assms(2)] obtain e where
    e: "sam_info_init sam ID (COUNT g) l = Inl e" by blast
  with assms(1) have "inter_sam_body sam ID g l = Inl e"
    by (simp add: inter_sam_body_def)
  with sam_info_init_error [OF e] show ?thesis by auto
qed

lemma loop_append:
  "inter_sam_loop sam ID g (xs @ ys)
   = (case inter_sam_loop sam ID g xs of Inl e \<Rightarrow> Inl e | Inr g' \<Rightarrow> inter_sam_loop sam ID g' ys)"
  by (induction xs arbitrary: g) (auto split: sum.splits)

section \<open>Quality aggregation\<close>

text \<open>
  Claim C1 says that the quality score of a record is the sum of (code point - 33) over
  every character of its quality string, so that "III" scores 120 and the empty string 0.
  \<open>convert_phred\<close> returns from inside its loop: it scores the first character only.
  On the record \<open>rec_III\<close>, whose quality string is "III", it returns 40; on a record with
  an empty quality field it returns \<open>None\<close>, not 0.
\<close>

theorem convert_phred_first_character_only:
  "convert_phred (sam_record rec_III) = Inr (Some 40)
   \<and> convert_phred (sam_record rec_noqual) = Inr None"
  by code_simp

section \<open>Selection of the best record\<close>

text \<open>
  The table never holds a key twice (\<open>place_keys_distinct\<close> above); which line it holds
  for a key is the subject of the next two claims.
\<close>

text \<open>
  Claim C2 says that the table holds, for every key, a line of maximal quality score among
  the eligible records of that key seen so far. The code keeps one \<open>bestScore\<close> for the
  whole table, set whenever a new key is inserted. In the stream below the records
  \<open>rec_a10\<close> and \<open>rec_a30\<close> share the key (AAAAAA, 100, +) and score 10 and 30; the
  record \<open>rec_c50\<close> of another key stands between them and leaves \<open>bestScore\<close> at 50, so the
  later, better record does not replace the first: the output keeps \<open>rec_a10\<close>.
\<close>

theorem best_score_shared_between_keys:
  "deduped (map sam_text [rec_a10, rec_c50, rec_a30]) 6
     (map sam_record [rec_a10, rec_c50, rec_a30])
   = Inr (map sam_record [rec_a10, rec_c50])"
  by code_simp

text \<open>
  Claim C3 says that of two eligible records with the same key and the same quality score
  the first in stream order is retained, whatever records of other keys surround them.
  \<open>rec_a40\<close> and \<open>rec_a40'\<close> share the key (AAAAAA, 100, +) and the quality string "III".
  The record \<open>rec_c10\<close> between them has another key and lowers \<open>bestScore\<close> to 10, so
  the second record replaces the first: the output holds \<open>rec_a40'\<close>, not \<open>rec_a40\<close>.
\<close>

theorem tie_replaced_after_other_key:
  "deduped (map sam_text [rec_a40, rec_c10, rec_a40']) 6
     (map sam_record [rec_a40, rec_c10, rec_a40'])
   = Inr (map sam_record [rec_a40', rec_c10])"
  by code_simp

section \<open>Classification\<close>

text \<open>
  Claim C4 says that classifying the same raw line a second time, later in the same run,
  gives the same adjusted start, quality score, strand, mapping validity and molecule id.
  The molecule id is not read from the line: \<open>barcode_get\<close> reads the name that stands at
  position \<open>COUNT\<close> of the file named by the global \<open>sam\<close>, which with the option
  \<open>--sort\<close> is still the unsorted input. For the unsorted file \<open>rec_L, rec_M, rec_L\<close> the
  sorted stream is \<open>rec_M, rec_L, rec_L\<close>: the line \<open>rec_L\<close> is classified at the counters
  2 and 3 and gets the molecule ids CCCCCC and AAAAAA, so both copies are kept.
\<close>

theorem molecule_id_follows_counter:
  "map_sum id (BC \<circ> fst) (sam_info_init (map sam_text [rec_L, rec_M, rec_L]) 6 2 (sam_record rec_L))
     = Inr ''CCCCCC''
   \<and> map_sum id (BC \<circ> fst) (sam_info_init (map sam_text [rec_L, rec_M, rec_L]) 6 3 (sam_record rec_L))
     = Inr ''AAAAAA''
   \<and> deduped (map sam_text [rec_L, rec_M, rec_L]) 6 (map sam_record [rec_M, rec_L, rec_L])
     = Inr (map sam_record [rec_M, rec_L, rec_L])"
  by code_simp

text \<open>
  Claim C5 says that a malformed non-header line (fewer than eleven fields, or a flag or
  a position that is no integer) is skipped and logged and that the run goes on. The code
  has no handler around the classification: \<open>sam_info\<close> raises IndexError or ValueError
  and the run ends there. In the stream below the second line has six fields; the run ends
  with IndexError and writes nothing, although the lines around it are well formed.
\<close>

theorem malformed_line_stops_run:
  "deduped (map sam_text [rec_a10, rec_short, rec_c50]) 6
     (map sam_record [rec_a10, rec_short, rec_c50]) = Inl IndexError"
  by code_simp

text \<open>
  Claim C5 as amended: a non-header line with fewer than eleven tab-separated fields, or
  whose flag field or position field is rejected by \<open>int\<close>, makes its classification
  raise IndexError or ValueError, which nothing catches. Whatever stands before and after
  the line in the stream, the run ends with an exception and no output is written; when
  the lines before it are processed without an exception, the run ends at this line, with
  that IndexError or ValueError.
\<close>

theorem malformed_line_aborts_run:
  assumes "\<not> starts_with_at l"
    and "length (split_on TAB l) < 11
     \<or> (\<exists>f. py_index (split_on TAB l) 1 = Inr f \<and> py_int f = Inl ValueError)
     \<or> (\<exists>f. py_index (split_on TAB l) 3 = Inr f \<and> py_int f = Inl ValueError)"
  shows "(\<forall>g. inter_sam_body sam ID g l = Inl IndexError
              \<or> inter_sam_body sam ID g l = Inl ValueError)
       \<and> (\<exists>e. deduped sam ID (pre @ l # post) = Inl e)
       \<and> (\<forall>g. inter_sam sam ID pre = Inr g \<longrightarrow>
              (deduped sam ID (pre @ l # post) = Inl IndexError
               \<or> deduped sam ID (pre @ l # post) = Inl ValueError))"
proof (intro conjI allI impI)
  fix g
  from body_malformed [OF assms] show "inter_sam_body sam ID g l = Inl IndexError
      \<or> inter_sam_body sam ID g l = Inl ValueError" .
next
  have "\<exists>e. inter_sam_body sam ID g l = Inl e" for g
    using body_malformed [OF assms, of sam ID g] by auto
  from loop_abort [of sam ID l init_globals pre post, OF this]
  show "\<exists>e. deduped sam ID (pre @ l # post) = Inl e"
    by (auto simp: deduped_def inter_sam_def)
next
  fix g assume "inter_sam sam ID pre = Inr g"
  then have "inter_sam_loop sam ID init_globals (pre @ l # post)
      = (case inter_sam_body sam ID g l of Inl e \<Rightarrow> Inl e
         | Inr g' \<Rightarrow> inter_sam_loop sam ID g' post)"
    by (simp add: inter_sam_def loop_append)
  with body_malformed [OF assms, of sam ID g]
  show "deduped sam ID (pre @ l # post) = Inl IndexError
      \<or> deduped sam ID (pre @ l # post) = Inl ValueError"
    by (auto simp: deduped_def inter_sam_def)
qed

theorem malformed_line_aborts_run_witness:
  "\<not> starts_with_at (sam_record rec_short) \<and> length (split_on TAB (sam_record rec_short)) < 11
   \<and> inter_sam (map sam_text [rec_a10, rec_short, rec_c50]) 6 [sam_record rec_a10]
       = Inr \<lparr>COUNT = 2, NR = 1, bestScore = Some 10,
              place = [((''AAAAAA'', 100, ''+''), sam_record rec_a10)]\<rparr>
   \<and> (inter_sam_body (map sam_text [rec_a10, rec_short, rec_c50]) 6 init_globals
          (sam_record rec_short) = Inl IndexError
        \<or> inter_sam_body (map sam_text [rec_a10, rec_short, rec_c50]) 6 init_globals
          (sam_record rec_short) = Inl ValueError)
   \<and> (\<exists>e. deduped (map sam_text [rec_a10, rec_short, rec_c50]) 6
            ([sam_record rec_a10] @ sam_record rec_short # [sam_record rec_c50]) = Inl e)
   \<and> (deduped (map sam_text [rec_a10, rec_short, rec_c50]) 6
          ([sam_record rec_a10] @ sam_record rec_short # [sam_record rec_c50]) = Inl IndexError
        \<or> deduped (map sam_text [rec_a10, rec_short, rec_c50]) 6
          ([sam_record rec_a10] @ sam_record rec_short # [sam_record rec_c50]) = Inl ValueError)"
proof -
  have h1: "\<not> starts_with_at (sam_record rec_short)" by code_simp
  have h2: "length (split_on TAB (sam_record rec_short)) < 11" by code_simp
  have p: "inter_sam (map sam_text [rec_a10, rec_short, rec_c50]) 6 [sam_record rec_a10]
       = Inr \<lparr>COUNT = 2, NR = 1, bestScore = Some 10,
              place = [((''AAAAAA'', 100, ''+''), sam_record rec_a10)]\<rparr>" by code_simp
  note t = malformed_line_aborts_run [OF h1 disjI1, OF h2,
      of "map sam_text [rec_a10, rec_short, rec_c50]" 6 "[sam_record rec_a10]"
         "[sam_record rec_c50]"]
  from t p have "deduped (map sam_text [rec_a10, rec_short, rec_c50]) 6
          ([sam_record rec_a10] @ sam_record rec_short # [sam_record rec_c50]) = Inl IndexError
        \<or> deduped (map sam_text [rec_a10, rec_short, rec_c50]) 6
          ([sam_record rec_a10] @ sam_record rec_short # [sam_record rec_c50]) = Inl ValueError"
    by blast
  with t h1 h2 p show ?thesis by blast
qed

section \<open>Soft clipping\<close>

text \<open>
  Claim C6 says that the soft-clip resolver returns a value for every descriptor, also for
  short ones such as "*" and "M", and 0 for malformed ones. \<open>soft_check\<close> indexes the
  descriptor at 1 and 2 without looking at its length: on "*" (the descriptor of an
  unmapped read) and on "M" it raises IndexError.
\<close>

theorem soft_check_short_descriptor_raises:
  "soft_check ''*'' = Inl IndexError \<and> soft_check ''M'' = Inl IndexError"
  by code_simp

text \<open>
  Claim C7 says that a leading soft clip of one or two digits is subtracted from the
  reference position and that a descriptor whose first operation is not a soft clip leaves
  the position as it is. The descriptor "5M" has no soft clip, but it has two characters
  only, and \<open>start_pos\<close> raises IndexError on the record \<open>rec_5M\<close> at position 100
  instead of returning 100.
\<close>

theorem start_pos_two_character_descriptor_raises:
  "start_pos (sam_record rec_5M) = Inl IndexError"
  by code_simp

text \<open>
  Claim C10 says that for every leading soft clip of length s at position p with
  \<open>s \<ge> p\<close> the adjusted start is \<open>p - s\<close>. \<open>soft_check\<close> looks for the letter at
  the indices 1 and 2 only, so a length of three digits is not seen: the record
  \<open>rec_clip100\<close> at position 50 with descriptor "100S20M" keeps the start 50.
\<close>

theorem three_digit_clip_not_subtracted:
  "start_pos (sam_record rec_clip100) = Inr 50 \<and> start_pos (sam_record rec_clip100) \<noteq> Inr (50 - 100)"
  by code_simp

text \<open>
  Claim C10 as amended: for a leading soft clip of one or two digits, of length s, at
  reference position p with \<open>p \<le> s\<close>, the adjusted start is \<open>p - s\<close>, which is zero or
  negative; nothing clamps it, and the record, when it is mapped, has a molecule id and its
  key is new, enters the table under the key (molecule id, \<open>p - s\<close>, strand).
\<close>

theorem start_pos_not_clamped:
  assumes "\<not> starts_with_at l"
    and "py_index (split_on TAB l) 3 = Inr f3" and "py_int f3 = Inr p"
    and "py_index (split_on TAB l) 5 = Inr (ds @ c # rest)"
    and "c = CHR ''S'' \<or> c = CHR ''s''"
    and "length ds = 1 \<or> length ds = 2" and "\<forall>d\<in>set ds. is_digit d"
    and "py_int ds = Inr s" and "p \<le> s"
  shows "start_pos l = Inr (p - s) \<and> p - s \<le> 0
       \<and> (\<forall>sam ID g q sd u.
             convert_phred l = Inr q \<and> bit_check l = Inr (sd, Some u)
             \<and> barcode_get sam ID (COUNT g) \<noteq> []
             \<and> (barcode_get sam ID (COUNT g), p - s, sd) \<notin> set (dict_keys (place g))
             \<longrightarrow> (\<exists>g'. inter_sam_body sam ID g l = Inr g'
                    \<and> place g' = place g @ [((barcode_get sam ID (COUNT g), p - s, sd), l)]))"
proof -
  from soft_check_leading_clip [OF assms(5-7)] assms(8)
  have "soft_check (ds @ c # rest) = Inr s" by simp
  moreover from py_int_digits_nonneg [OF assms(6-8)] have "0 \<le> s" .
  ultimately have sp: "start_pos l = Inr (p - s)"
    using assms(2-4) by (simp add: start_pos_def)
  from assms(9) have "p - s \<le> 0" by simp
  with sp body_insert [OF assms(1) sp] show ?thesis by blast
qed

theorem start_pos_not_clamped_witness:
  "\<not> starts_with_at (sam_record rec_clip5)
   \<and> py_index (split_on TAB (sam_record rec_clip5)) 3 = Inr ''3'' \<and> py_int ''3'' = Inr 3
   \<and> py_index (split_on TAB (sam_record rec_clip5)) 5 = Inr (''5'' @ CHR ''S'' # ''20M'')
   \<and> py_int ''5'' = Inr 5 \<and> (3::int) \<le> 5
   \<and> start_pos (sam_record rec_clip5) = Inr (3 - 5)
   \<and> convert_phred (sam_record rec_clip5) = Inr (Some 40)
   \<and> bit_check (sam_record rec_clip5) = Inr (''+'', Some [])
   \<and> barcode_get (map sam_text [rec_clip5]) 6 (COUNT init_globals) = ''AAAAAA''
   \<and> (\<exists>g'. inter_sam_body (map sam_text [rec_clip5]) 6 init_globals (sam_record rec_clip5) = Inr g'
          \<and> place g' = place init_globals @ [((''AAAAAA'', 3 - 5, ''+''), sam_record rec_clip5)])"
proof -
  let ?l = "sam_record rec_clip5"
  have h1: "\<not> starts_with_at ?l" by code_simp
  have h2: "py_index (split_on TAB ?l) 3 = Inr ''3''" by code_simp
  have h3: "py_int ''3'' = Inr 3" by code_simp
  have h4: "py_index (split_on TAB ?l) 5 = Inr (''5'' @ CHR ''S'' # ''20M'')" by code_simp
  have h5: "CHR ''S'' = CHR ''S'' \<or> CHR ''S'' = CHR ''s''" by simp
  have h6: "length ''5'' = 1 \<or> length ''5'' = 2" by simp
  have h7: "\<forall>d\<in>set ''5''. is_digit d" by (simp add: is_digit_def)
  have h8: "py_int ''5'' = Inr 5" by code_simp
  have h9: "(3::int) \<le> 5" by simp
  have q: "convert_phred ?l = Inr (Some 40)" by code_simp
  have b: "bit_check ?l = Inr (''+'', Some [])" by code_simp
  have bc: "barcode_get (map sam_text [rec_clip5]) 6 (COUNT init_globals) = ''AAAAAA''" by code_simp
  have k: "(''AAAAAA'', (3::int) - 5, ''+'') \<notin> set (dict_keys (place init_globals))"
    by (simp add: init_globals_def dict_keys_def)
  note t = start_pos_not_clamped [OF h1 h2 h3 h4 h5 h6 h7 h8 h9]
  from t have sp: "start_pos ?l = Inr (3 - 5)" by blast
  from t have "convert_phred ?l = Inr (Some 40) \<and> bit_check ?l = Inr (''+'', Some [])
       \<and> barcode_get (map sam_text [rec_clip5]) 6 (COUNT init_globals) \<noteq> []
       \<and> (barcode_get (map sam_text [rec_clip5]) 6 (COUNT init_globals), 3 - 5, ''+'')
           \<notin> set (dict_keys (place init_globals))
       \<longrightarrow> (\<exists>g'. inter_sam_body (map sam_text [rec_clip5]) 6 init_globals ?l = Inr g'
              \<and> place g' = place init_globals
                  @ [((barcode_get (map sam_text [rec_clip5]) 6 (COUNT init_globals), 3 - 5, ''+''), ?l)])"
    by blast
  with q b bc k have "\<exists>g'. inter_sam_body (map sam_text [rec_clip5]) 6 init_globals ?l = Inr g'
          \<and> place g' = place init_globals @ [((''AAAAAA'', 3 - 5, ''+''), ?l)]"
    by simp
  with h1 h2 h3 h4 h8 h9 sp q b bc show ?thesis by blast
qed

section \<open>Molecule id\<close>




section \<open>Excluded records\<close>

text \<open>
  Claim C9: a record whose flag has the unmapped bit (4) or the secondary-alignment bit
  (256) set is never put into the table, and its line is never among the lines written to
  the output, whatever the rest of the stream is.
\<close>

theorem excluded_record_never_stored:
  assumes "py_index (split_on TAB l) 1 = Inr f" and "py_int f = Inr flag"
    and "flag AND 4 = 4 \<or> flag AND 256 = 256"
  shows "(\<forall>g g'. inter_sam_body sam ID g l = Inr g' \<longrightarrow> place g' = place g)
       \<and> (\<forall>out. deduped sam ID sorted_sam = Inr out \<longrightarrow> l \<notin> set out)"
proof (intro conjI allI impI)
  from bit_check_excluded [OF assms]
  have ex: "bit_check l = Inr (if flag AND 16 = 16 then ''-'' else ''+'', None)" .
  {
    fix g g' assume b: "inter_sam_body sam ID g l = Inr g'"
    show "place g' = place g"
    proof (cases "starts_with_at l")
      case True
      with b show ?thesis by (simp add: body_header)
    next
      case False
      from body_record [OF False b] obtain info where
        i: "sam_info_init sam ID (COUNT g) l = Inr (info, COUNT g + 1)"
        and a: "snd (strand info) = None \<or> BC info = [] \<longrightarrow> place g' = place g"
        by blast
      from sam_info_init_fields [OF i] have "bit_check l = Inr (strand info)" by simp
      with ex have "strand info = (if flag AND 16 = 16 then ''-'' else ''+'', None)" by simp
      then have "snd (strand info) = None" by simp
      with a show ?thesis by blast
    qed
  }
  {
    fix out assume d: "deduped sam ID sorted_sam = Inr out"
    then obtain g where g: "inter_sam sam ID sorted_sam = Inr g" and out: "out = dict_values (place g)"
      by (auto simp: deduped_def split: sum.splits)
    from g have "stored_mapped g"
      unfolding inter_sam_def by (rule loop_stored_mapped) (rule init_stored_mapped)
    with ex out show "l \<notin> set out"
      unfolding stored_mapped_def by auto
  }
qed

theorem excluded_record_never_stored_witness:
  "py_index (split_on TAB (sam_record rec_u4)) 1 = Inr ''4'' \<and> py_int ''4'' = Inr 4
   \<and> ((4::int) AND 4 = 4 \<or> (4::int) AND 256 = 256)
   \<and> inter_sam_body (map sam_text [rec_a10, rec_u4]) 6 init_globals (sam_record rec_u4)
       = Inr (init_globals\<lparr>COUNT := 2, NR := 1\<rparr>)
   \<and> place (init_globals\<lparr>COUNT := 2, NR := 1\<rparr>) = place init_globals
   \<and> deduped (map sam_text [rec_a10, rec_u4]) 6 (map sam_record [rec_a10, rec_u4])
       = Inr [sam_record rec_a10]
   \<and> sam_record rec_u4 \<notin> set [sam_record rec_a10]"
proof -
  have h1: "py_index (split_on TAB (sam_record rec_u4)) 1 = Inr ''4''" by code_simp
  have h2: "py_int ''4'' = Inr 4" by code_simp
  have h3: "(4::int) AND 4 = 4 \<or> (4::int) AND 256 = 256" by simp
  have b: "inter_sam_body (map sam_text [rec_a10, rec_u4]) 6 init_globals (sam_record rec_u4)
       = Inr (init_globals\<lparr>COUNT := 2, NR := 1\<rparr>)" by code_simp
  have d: "deduped (map sam_text [rec_a10, rec_u4]) 6 (map sam_record [rec_a10, rec_u4])
       = Inr [sam_record rec_a10]" by code_simp
  note t = excluded_record_never_stored [OF h1 h2 h3,
      of "map sam_text [rec_a10, rec_u4]" 6 "map sam_record [rec_a10, rec_u4]"]
  from t b have "place (init_globals\<lparr>COUNT := 2, NR := 1\<rparr>) = place init_globals" by blast
  moreover from t d have "sam_record rec_u4 \<notin> set [sam_record rec_a10]" by blast
  ultimately show ?thesis using h1 h2 h3 b d by blast
qed

end
